theory Spec2Isabelle
  imports Complex_Main
begin

section \<open>Strings\<close>

text \<open>
  A Python \<open>str\<close> is a sequence of Unicode code points. The source's literals are
  Japanese and Cyrillic, so a string is modelled as the list of its code points
  (\<open>ord\<close> of each character), not as a list of bytes.
\<close>

type_synonym ustring = "nat list"

text \<open>\<open>s.startswith(p)\<close>\<close>

fun startswith :: "ustring \<Rightarrow> ustring \<Rightarrow> bool" where
  "startswith s [] = True"
| "startswith [] (p # ps) = False"
| "startswith (c # cs) (p # ps) = (c = p \<and> startswith cs ps)"

text \<open>\<open>p in s\<close> for two strings: \<open>p\<close> occurs in \<open>s\<close> as a contiguous substring.\<close>

fun str_in :: "ustring \<Rightarrow> ustring \<Rightarrow> bool" where
  "str_in p [] = (p = [])"
| "str_in p (c # cs) = (startswith (c # cs) p \<or> str_in p cs)"

section \<open>Condition classifier (\<open>run.py\<close>, \<open>WeatherReporter._categorize_weather\<close>)\<close>

text \<open>The patterns searched for in the icon's alt text, as code points.\<close>

definition pat_kaminari :: ustring where  \<comment> \<open>U+96F7, thunder\<close>
  "pat_kaminari = [38647]"

definition pat_yuki :: ustring where  \<comment> \<open>U+96EA, snow\<close>
  "pat_yuki = [38634]"

definition pat_hare_tokidoki_kumori :: ustring where  \<comment> \<open>sunny, at times cloudy\<close>
  "pat_hare_tokidoki_kumori = [26228, 12428, 26178, 12293, 12367, 12418, 12426]"

definition pat_kumori_tokidoki_ame :: ustring where  \<comment> \<open>cloudy, at times rain\<close>
  "pat_kumori_tokidoki_ame = [12367, 12418, 12426, 26178, 12293, 38632]"

definition pat_ame_tokidoki_yamu :: ustring where  \<comment> \<open>rain, stopping at times\<close>
  "pat_ame_tokidoki_yamu = [38632, 26178, 12293, 12420, 12416]"

definition pat_ame :: ustring where  \<comment> \<open>U+96E8, rain\<close>
  "pat_ame = [38632]"

definition pat_hare :: ustring where  \<comment> \<open>U+6674, sunny\<close>
  "pat_hare = [26228]"

definition pat_kumo :: ustring where  \<comment> \<open>hiragana ku-mo\<close>
  "pat_kumo = [12367, 12418]"

definition pat_kumori_kanji :: ustring where  \<comment> \<open>U+66C7, cloudy\<close>
  "pat_kumori_kanji = [26311]"

text \<open>The canonical Russian phrases returned, as code points.\<close>

definition cat_groza :: ustring where  \<comment> \<open>"groza", thunderstorm\<close>
  "cat_groza = [1075, 1088, 1086, 1079, 1072]"

definition cat_sneg :: ustring where  \<comment> \<open>"sneg", snow\<close>
  "cat_sneg = [1089, 1085, 1077, 1075]"

definition cat_solnechno_oblachno :: ustring where  \<comment> \<open>"solnechno, vremenami oblachno"\<close>
  "cat_solnechno_oblachno =
     [1089, 1086, 1083, 1085, 1077, 1095, 1085, 1086, 44, 32,
      1074, 1088, 1077, 1084, 1077, 1085, 1072, 1084, 1080, 32,
      1086, 1073, 1083, 1072, 1095, 1085, 1086]"

definition cat_oblachno_dozhd :: ustring where  \<comment> \<open>"oblachno, vremenami dozhd"\<close>
  "cat_oblachno_dozhd =
     [1086, 1073, 1083, 1072, 1095, 1085, 1086, 44, 32,
      1074, 1088, 1077, 1084, 1077, 1085, 1072, 1084, 1080, 32,
      1076, 1086, 1078, 1076, 1100]"

definition cat_dozhd_proyasneniya :: ustring where  \<comment> \<open>"dozhd s proyasneniyami"\<close>
  "cat_dozhd_proyasneniya =
     [1076, 1086, 1078, 1076, 1100, 32, 1089, 32,
      1087, 1088, 1086, 1103, 1089, 1085, 1077, 1085, 1080, 1103, 1084, 1080]"

definition cat_dozhd :: ustring where  \<comment> \<open>"dozhd", rain\<close>
  "cat_dozhd = [1076, 1086, 1078, 1076, 1100]"

definition cat_solnechno :: ustring where  \<comment> \<open>"solnechno", sunny\<close>
  "cat_solnechno = [1089, 1086, 1083, 1085, 1077, 1095, 1085, 1086]"

definition cat_oblachno :: ustring where  \<comment> \<open>"oblachno", cloudy\<close>
  "cat_oblachno = [1086, 1073, 1083, 1072, 1095, 1085, 1086]"

text \<open>The chain of \<open>if ... in alt: return ...\<close> statements, in the source's order.\<close>

definition categorize_weather :: "ustring \<Rightarrow> ustring" where
  "categorize_weather alt =
     (if str_in pat_kaminari alt then cat_groza
      else if str_in pat_yuki alt then cat_sneg
      else if str_in pat_hare_tokidoki_kumori alt then cat_solnechno_oblachno
      else if str_in pat_kumori_tokidoki_ame alt then cat_oblachno_dozhd
      else if str_in pat_ame_tokidoki_yamu alt then cat_dozhd_proyasneniya
      else if str_in pat_ame alt then cat_dozhd
      else if str_in pat_hare alt then cat_solnechno
      else if str_in pat_kumo alt \<or> str_in pat_kumori_kanji alt then cat_oblachno
      else alt)"

text \<open>
  The classifier as the specification words it: a fixed, ordered list of entries, each a
  set of alternative substring patterns with its category; the first entry with a
  pattern occurring in the input decides, and an input matching no entry is returned
  unchanged.
\<close>

definition weather_patterns :: "(ustring list \<times> ustring) list" where
  "weather_patterns =
     [([pat_kaminari], cat_groza),
      ([pat_yuki], cat_sneg),
      ([pat_hare_tokidoki_kumori], cat_solnechno_oblachno),
      ([pat_kumori_tokidoki_ame], cat_oblachno_dozhd),
      ([pat_ame_tokidoki_yamu], cat_dozhd_proyasneniya),
      ([pat_ame], cat_dozhd),
      ([pat_hare], cat_solnechno),
      ([pat_kumo, pat_kumori_kanji], cat_oblachno)]"

fun first_match :: "(ustring list \<times> ustring) list \<Rightarrow> ustring \<Rightarrow> ustring" where
  "first_match [] alt = alt"
| "first_match ((ps, c) # rest) alt =
     (if list_ex (\<lambda>p. str_in p alt) ps then c else first_match rest alt)"

section \<open>Name translator (\<open>services/ai.py\<close>, \<open>DeepSeekClient.translate\<close>)\<close>

subsection \<open>Exceptions and JSON values\<close>

text \<open>
  A raised exception is a value of type \<open>error\<close>; a function that can raise returns
  \<open>error + 'a\<close>, with \<open>Inl\<close> the exception. \<open>LibraryError\<close> stands for whatever
  an external library (HTTP client, browser automation, messaging client) raises.
\<close>

datatype error =
    ValueError string
  | RuntimeError string
  | TypeError string
  | AttributeError string
  | RecursionError string
  | LibraryError string

text \<open>
  What \<open>json.loads\<close> can return. The non-finite floats that Python's parser also
  accepts are not represented; like every non-zero float they are truthy and are not
  strings.
\<close>

datatype json =
    JNull
  | JBool bool
  | JInt int
  | JFloat real
  | JStr ustring
  | JList "json list"
  | JDict "(ustring \<times> json) list"

text \<open>
  What \<open>json.loads\<close> does with a text: it returns the decoded value, raises
  \<open>json.JSONDecodeError\<close>, or raises another exception (a plain \<open>ValueError\<close> for
  an integer literal longer than the interpreter's digit limit, \<open>RecursionError\<close> for
  too deep a nesting).
\<close>

datatype decoded =
    Decoded json
  | JSONDecodeError
  | DecoderRaises error

text \<open>Python truthiness (\<open>bool(v)\<close>) of a decoded JSON value.\<close>

fun py_truthy :: "json \<Rightarrow> bool" where
  "py_truthy JNull = False"
| "py_truthy (JBool b) = b"
| "py_truthy (JInt i) = (i \<noteq> 0)"
| "py_truthy (JFloat r) = (r \<noteq> 0)"
| "py_truthy (JStr s) = (s \<noteq> [])"
| "py_truthy (JList xs) = (xs \<noteq> [])"
| "py_truthy (JDict kvs) = (kvs \<noteq> [])"

subsection \<open>String helpers used by \<open>translate\<close>\<close>

text \<open>
  The character class of the compiled pattern \<open>self._cyrillic_re\<close>: the capital
  Cyrillic letters U+0410..U+042F, capital IO U+0401, the small letters U+0430..U+044F
  and small io U+0451.
\<close>

definition is_cyrillic :: "nat \<Rightarrow> bool" where
  "is_cyrillic c \<longleftrightarrow>
     (1040 \<le> c \<and> c \<le> 1071) \<or> c = 1025 \<or> (1072 \<le> c \<and> c \<le> 1103) \<or> c = 1105"

text \<open>\<open>self._cyrillic_re.search(s)\<close> read as a truth value: some character is in the class.\<close>

definition cyrillic_search :: "ustring \<Rightarrow> bool" where
  "cyrillic_search s = list_ex is_cyrillic s"

text \<open>The code points for which \<open>str.isspace\<close> holds; \<open>str.strip()\<close> removes these.\<close>

definition is_space :: "nat \<Rightarrow> bool" where
  "is_space c \<longleftrightarrow>
     c \<in> set [9, 10, 11, 12, 13, 28, 29, 30, 31, 32, 133, 160, 5760,
              8192, 8193, 8194, 8195, 8196, 8197, 8198, 8199, 8200, 8201, 8202,
              8232, 8233, 8239, 8287, 12288]"

definition lstrip :: "ustring \<Rightarrow> ustring" where
  "lstrip s = dropWhile is_space s"

definition rstrip :: "ustring \<Rightarrow> ustring" where
  "rstrip s = rev (dropWhile is_space (rev s))"

definition strip :: "ustring \<Rightarrow> ustring" where
  "strip s = rstrip (lstrip s)"

text \<open>\<open>s.find(c)\<close> and \<open>s.rfind(c)\<close> for a one-character needle: an index, or \<open>-1\<close>.\<close>

fun str_find :: "ustring \<Rightarrow> nat \<Rightarrow> int" where
  "str_find [] c = -1"
| "str_find (x # xs) c =
     (if x = c then 0
      else (let r = str_find xs c in if r < 0 then -1 else r + 1))"

fun str_rfind :: "ustring \<Rightarrow> nat \<Rightarrow> int" where
  "str_rfind [] c = -1"
| "str_rfind (x # xs) c =
     (let r = str_rfind xs c in
      if 0 \<le> r then r + 1 else if x = c then 0 else -1)"

text \<open>\<open>s[i:j]\<close> for indices that are not negative.\<close>

definition py_slice :: "ustring \<Rightarrow> int \<Rightarrow> int \<Rightarrow> ustring" where
  "py_slice s i j = take (nat j - nat i) (drop (nat i) s)"

subsection \<open>The translation cache and one round\<close>

text \<open>The module-level dictionary \<open>CITY_TRANSLATIONS\<close> as it is when the module is loaded.\<close>

definition CITY_TRANSLATIONS_seed :: "(ustring \<times> ustring) list" where
  "CITY_TRANSLATIONS_seed =
     [([26481, 20140], [1058, 1086, 1082, 1080, 1086]),
      ([38263, 37326], [1053, 1072, 1075, 1072, 1085, 1086]),
      ([26032, 28511], [1053, 1080, 1080, 1075, 1072, 1090, 1072]),
      ([23567, 31520, 21407], [1054, 1075, 1072, 1089, 1072, 1074, 1072, 1088, 1072]),
      ([22823, 38442], [1054, 1089, 1072, 1082, 1072]),
      ([21517, 21476, 23627], [1053, 1072, 1075, 1086, 1103]),
      ([37329, 27810], [1050, 1072, 1085, 1072, 1076, 1079, 1072, 1074, 1072]),
      ([24195, 23798], [1061, 1080, 1088, 1086, 1089, 1080, 1084, 1072]),
      ([26494, 27743], [1052, 1072, 1094, 1091, 1101]),
      ([31119, 23713], [1060, 1091, 1082, 1091, 1086, 1082, 1072]),
      ([40575, 20816, 23798], [1050, 1072, 1075, 1086, 1089, 1080, 1084, 1072]),
      ([37027, 35207], [1053, 1072, 1093, 1072]),
      ([20185, 21488], [1057, 1101, 1085, 1076, 1072, 1081]),
      ([31179, 30000], [1040, 1082, 1080, 1090, 1072]),
      ([26413, 24140], [1057, 1072, 1087, 1087, 1086, 1088, 1086]),
      ([37351, 36335], [1050, 1091, 1089, 1080, 1088, 1086]),
      ([39640, 30693], [1050, 1086, 1090, 1080])]"

definition CITY_TRANSLATIONS :: "ustring \<rightharpoonup> ustring" where
  "CITY_TRANSLATIONS = map_of CITY_TRANSLATIONS_seed"

text \<open>
  The \<open>for jp, ru in data.items()\<close> loop: a candidate that is truthy and matches the
  Cyrillic class goes to \<open>good\<close>, stripped; one that is falsy or has no Cyrillic
  character goes to \<open>bad\<close>. \<open>re.search\<close> on a truthy value that is not a string
  raises \<open>TypeError\<close>, which nothing in \<open>translate\<close> catches.
\<close>

fun split_items ::
  "(ustring \<times> json) list \<Rightarrow> (ustring \<rightharpoonup> ustring) \<Rightarrow> ustring list \<Rightarrow>
   error + ((ustring \<rightharpoonup> ustring) \<times> ustring list)" where
  "split_items [] good bad = Inr (good, bad)"
| "split_items ((jp, ru) # rest) good bad =
     (if py_truthy ru then
        (case ru of
           JStr s \<Rightarrow>
             if cyrillic_search s then split_items rest (good(jp \<mapsto> strip s)) bad
             else split_items rest good (bad @ [jp])
         | _ \<Rightarrow> Inl (TypeError ''expected string or bytes-like object''))
      else split_items rest good (bad @ [jp]))"

text \<open>
  The body of the \<open>while\<close> loop after the chat call (from \<open>resp.find\<close> on). The JSON
  decoder is a parameter \<open>loads\<close>. The handler of the \<open>try\<close> block is for
  \<open>json.JSONDecodeError\<close> only: any other exception of the decoder, like the
  \<open>TypeError\<close> of the script check, leaves the loop. The result is the new
  \<open>(missing, result)\<close>; a round with no braces, or with text between them on which the
  decoder raises \<open>json.JSONDecodeError\<close>, leaves both as they were.
\<close>

definition translate_round ::
  "(ustring \<Rightarrow> decoded) \<Rightarrow> ustring \<Rightarrow> ustring list \<Rightarrow> (ustring \<rightharpoonup> ustring) \<Rightarrow>
   error + (ustring list \<times> (ustring \<rightharpoonup> ustring))" where
  "translate_round loads resp missing result =
     (let start = str_find resp 123; end = str_rfind resp 125 in
      if 0 \<le> start \<and> start < end then
        (case loads (py_slice resp start (end + 1)) of
           JSONDecodeError \<Rightarrow> Inr (missing, result)
         | DecoderRaises e \<Rightarrow> Inl e
         | Decoded (JDict items) \<Rightarrow>
             (case split_items items Map.empty [] of
                Inl e \<Rightarrow> Inl e
              | Inr (good, bad) \<Rightarrow> Inr (bad, result ++ good))
         | Decoded _ \<Rightarrow> Inl (AttributeError ''object has no attribute items''))
      else Inr (missing, result))"

text \<open>
  The \<open>while missing and attempt <= max_retries\<close> loop. \<open>chat\<close> is the generation
  capability as this call sees it: given the attempt number and the list of terms sent
  as the user message, it returns the stripped response text or raises. The call to
  \<open>self.chat\<close> is outside the \<open>try\<close> block, so what it raises leaves the loop.
\<close>

function translate_loop ::
  "(int \<Rightarrow> ustring list \<Rightarrow> error + ustring) \<Rightarrow> (ustring \<Rightarrow> decoded) \<Rightarrow> int \<Rightarrow>
   int \<Rightarrow> ustring list \<Rightarrow> (ustring \<rightharpoonup> ustring) \<Rightarrow>
   error + (ustring list \<times> (ustring \<rightharpoonup> ustring))" where
  "translate_loop chat loads max_retries attempt missing result =
     (if missing \<noteq> [] \<and> attempt \<le> max_retries then
        (case chat (attempt + 1) missing of
           Inl e \<Rightarrow> Inl e
         | Inr resp \<Rightarrow>
             (case translate_round loads resp missing result of
                Inl e \<Rightarrow> Inl e
              | Inr (missing', result') \<Rightarrow>
                  translate_loop chat loads max_retries (attempt + 1) missing' result'))
      else Inr (missing, result))"
  by pat_completeness auto
termination
  by (relation "measure (\<lambda>(chat, loads, max_retries, attempt, missing, result).
        nat (max_retries + 1 - attempt))") auto

declare translate_loop.simps [simp del]

text \<open>The returned dictionary \<open>{t: CITY_TRANSLATIONS.get(t, t) for t in jp_terms}\<close>.\<close>

definition lookup_terms :: "(ustring \<rightharpoonup> ustring) \<Rightarrow> ustring list \<Rightarrow> (ustring \<rightharpoonup> ustring)" where
  "lookup_terms cache jp_terms =
     (\<lambda>t. if t \<in> set jp_terms
          then Some (case cache t of Some v \<Rightarrow> v | None \<Rightarrow> t)
          else None)"

text \<open>
  \<open>translate\<close> takes the cache as it is before the call and returns the cache as it is
  after, with the returned dictionary or the exception raised. The cache is updated
  only by \<open>CITY_TRANSLATIONS.update(result)\<close> after the loop, so a call that raises
  leaves it as it was. The assignments \<open>result[jp] = jp\<close> that follow the update
  change a local dictionary that is not read again.
\<close>

definition translate ::
  "(int \<Rightarrow> ustring list \<Rightarrow> error + ustring) \<Rightarrow> (ustring \<Rightarrow> decoded) \<Rightarrow>
   (ustring \<rightharpoonup> ustring) \<Rightarrow> ustring list \<Rightarrow> int \<Rightarrow>
   (ustring \<rightharpoonup> ustring) \<times> (error + (ustring \<rightharpoonup> ustring))" where
  "translate chat loads cache jp_terms max_retries =
     (let to_do = filter (\<lambda>t. t \<noteq> [] \<and> cache t = None) jp_terms in
      if to_do = [] then (cache, Inr (lookup_terms cache jp_terms))
      else
        (case translate_loop chat loads max_retries 0 to_do Map.empty of
           Inl e \<Rightarrow> (cache, Inl e)
         | Inr (missing, result) \<Rightarrow>
             (let cache' = cache ++ result
              in (cache', Inr (lookup_terms cache' jp_terms)))))"

subsection \<open>Predicates used to state the translator's properties\<close>

text \<open>The script-validity check on a stored value: not empty, with a Cyrillic character.\<close>

definition valid_ru :: "ustring \<Rightarrow> bool" where
  "valid_ru v \<longleftrightarrow> v \<noteq> [] \<and> cyrillic_search v"

text \<open>
  The generation capability and the decoder never make \<open>translate\<close> raise: every chat
  call returns a text, the decoder raises nothing but \<open>json.JSONDecodeError\<close>, and
  whatever it decodes is an object whose truthy values are strings.
\<close>

fun is_JStr :: "json \<Rightarrow> bool" where
  "is_JStr (JStr s) = True"
| "is_JStr _ = False"

definition raises_nothing ::
  "(int \<Rightarrow> ustring list \<Rightarrow> error + ustring) \<Rightarrow> (ustring \<Rightarrow> decoded) \<Rightarrow> bool" where
  "raises_nothing chat loads \<longleftrightarrow>
     (\<forall>a ms. \<exists>resp. chat a ms = Inr resp) \<and>
     (\<forall>s e. loads s \<noteq> DecoderRaises e) \<and>
     (\<forall>s d. loads s = Decoded d \<longrightarrow>
        (\<exists>items. d = JDict items \<and> (\<forall>(k, v)\<in>set items. py_truthy v \<longrightarrow> is_JStr v)))"

text \<open>
  Some response that the capability can give offers, for the key \<open>k\<close>, a candidate that
  passes the script check: the text has the braces, the decoder turns the part between
  them into an object, and the object holds \<open>k\<close> with a string with a Cyrillic character.
\<close>

definition offered ::
  "(int \<Rightarrow> ustring list \<Rightarrow> error + ustring) \<Rightarrow> (ustring \<Rightarrow> decoded) \<Rightarrow> ustring \<Rightarrow> bool" where
  "offered chat loads k \<longleftrightarrow>
     (\<exists>a ms resp items s.
        chat a ms = Inr resp \<and>
        0 \<le> str_find resp 123 \<and> str_find resp 123 < str_rfind resp 125 \<and>
        loads (py_slice resp (str_find resp 123) (str_rfind resp 125 + 1)) = Decoded (JDict items) \<and>
        (k, JStr s) \<in> set items \<and> cyrillic_search s)"

subsection \<open>Example inputs\<close>

text \<open>
  Place names and response texts used to run the translator on concrete inputs: Tokyo
  (seeded), Kyoto (not seeded), the Russian "Kioto", a second spelling "Tokyo" ending in
  small io, and the response texts \<open>{"<Kyoto>": "<Kioto>"}\<close> and
  \<open>{"<Tokyo>": "<Tokyo, second spelling>", "<Kyoto>": "<Kioto>"}\<close> with what
  \<open>json.loads\<close> returns for them.
\<close>

definition ex_tokyo :: ustring where
  "ex_tokyo = [26481, 20140]"

definition ex_kyoto :: ustring where
  "ex_kyoto = [20140, 37117]"

definition ex_kioto :: ustring where
  "ex_kioto = [1050, 1080, 1086, 1090, 1086]"

definition ex_tokio :: ustring where
  "ex_tokio = [1058, 1086, 1082, 1080, 1086]"

definition ex_tokyo_respelled :: ustring where
  "ex_tokyo_respelled = [1058, 1086, 1082, 1105]"

definition ex_resp_kyoto :: ustring where
  "ex_resp_kyoto =
     [123, 34, 20140, 37117, 34, 58, 32, 34, 1050, 1080, 1086, 1090, 1086, 34, 125]"

definition ex_resp_both :: ustring where
  "ex_resp_both =
     [123, 34, 26481, 20140, 34, 58, 32, 34, 1058, 1086, 1082, 1105, 34, 44, 32,
      34, 20140, 37117, 34, 58, 32, 34, 1050, 1080, 1086, 1090, 1086, 34, 125]"

definition ex_resp_number :: ustring where  \<comment> \<open>\<open>{"<Kyoto>": 5}\<close>\<close>
  "ex_resp_number = [123, 34, 20140, 37117, 34, 58, 32, 53, 125]"

definition ex_loads :: "ustring \<Rightarrow> decoded" where
  "ex_loads s =
     (if s = ex_resp_kyoto then Decoded (JDict [(ex_kyoto, JStr ex_kioto)])
      else if s = ex_resp_both then
        Decoded (JDict [(ex_tokyo, JStr ex_tokyo_respelled), (ex_kyoto, JStr ex_kioto)])
      else JSONDecodeError)"

definition ex_loads_number :: "ustring \<Rightarrow> decoded" where
  "ex_loads_number s =
     (if s = ex_resp_number then Decoded (JDict [(ex_kyoto, JInt 5)]) else JSONDecodeError)"

text \<open>
  A decoder that meets an integer literal over the digit limit in every text it is given:
  \<open>json.loads\<close> then raises a plain \<open>ValueError\<close>.
\<close>

definition ex_loads_digit_limit :: "ustring \<Rightarrow> decoded" where
  "ex_loads_digit_limit s =
     DecoderRaises (ValueError ''Exceeds the limit for integer string conversion'')"

definition ex_unknown :: ustring where  \<comment> \<open>a place name that no response translates\<close>
  "ex_unknown = [37027]"

definition ex_chat_kyoto :: "int \<Rightarrow> ustring list \<Rightarrow> error + ustring" where
  "ex_chat_kyoto a ms = Inr ex_resp_kyoto"

definition ex_chat_both :: "int \<Rightarrow> ustring list \<Rightarrow> error + ustring" where
  "ex_chat_both a ms = Inr ex_resp_both"

text \<open>A capability that fails on its first call and would answer well from the second on.\<close>

definition ex_chat_flaky :: "int \<Rightarrow> ustring list \<Rightarrow> error + ustring" where
  "ex_chat_flaky a ms =
     (if a = 1 then Inl (RuntimeError ''DeepSeek API error: 503'') else Inr ex_resp_kyoto)"

section \<open>Report delivery (\<open>services/telegram.py\<close>, \<open>TelegramClient\<close>)\<close>

type_synonym bytes = "nat list"

text \<open>
  What the client does is recorded as a trace. \<open>CallSendPhoto\<close> and
  \<open>CallSendMessage\<close> record that the client's methods \<open>send_photo\<close> and
  \<open>send_message\<close> were entered; \<open>BotSendPhoto\<close> and \<open>BotSendMessage\<close> record that
  the request was handed to the messaging library (\<open>bot.send_photo\<close>,
  \<open>bot.send_message\<close>), which is the network send; \<open>SessionClose\<close> records
  \<open>bot.session.close()\<close>. A caption is \<open>None\<close> or a string.
\<close>

datatype tg_event =
    CallSendPhoto bytes "ustring option"
  | CallSendMessage ustring
  | BotSendPhoto bytes "ustring option"
  | BotSendMessage ustring
  | SessionClose

fun is_call :: "tg_event \<Rightarrow> bool" where
  "is_call (CallSendPhoto p c) = True"
| "is_call (CallSendMessage t) = True"
| "is_call _ = False"

fun is_net :: "tg_event \<Rightarrow> bool" where
  "is_net (BotSendPhoto p c) = True"
| "is_net (BotSendMessage t) = True"
| "is_net _ = False"

text \<open>
  The world outside the client: whether constructing \<open>Bot(token=...)\<close> succeeds, and
  for the network send number \<open>n\<close> (counted from 0) with a given request whether it
  returns (\<open>True\<close>) or raises (\<open>False\<close>).
\<close>

record tg_world =
  w_bot_ok :: bool
  w_net :: "nat \<Rightarrow> tg_event \<Rightarrow> bool"

text \<open>
  The client's state: whether \<open>self._bot\<close> is set, how many network sends were
  attempted, and the trace.
\<close>

record tg_state =
  tg_bot :: bool
  tg_sent :: nat
  tg_trace :: "tg_event list"

definition log_event :: "tg_event \<Rightarrow> tg_state \<Rightarrow> tg_state" where
  "log_event ev st = st\<lparr>tg_trace := tg_trace st @ [ev]\<rparr>"

text \<open>\<open>_get_bot\<close>: \<open>None\<close> when the constructor raises.\<close>

definition get_bot :: "tg_world \<Rightarrow> tg_state \<Rightarrow> tg_state option" where
  "get_bot w st =
     (if tg_bot st then Some st
      else if w_bot_ok w then Some (st\<lparr>tg_bot := True\<rparr>)
      else None)"

text \<open>A request handed to the library: recorded, counted, and answered by the world.\<close>

definition bot_request :: "tg_world \<Rightarrow> tg_event \<Rightarrow> tg_state \<Rightarrow> bool \<times> tg_state" where
  "bot_request w ev st =
     (w_net w (tg_sent st) ev, log_event ev (st\<lparr>tg_sent := tg_sent st + 1\<rparr>))"

text \<open>
  \<open>send_message\<close>: an empty text returns \<open>False\<close> before the \<open>try\<close>; inside the
  \<open>try\<close> every exception (from \<open>_get_bot\<close> or from the send) is caught and gives
  \<open>False\<close>.
\<close>

definition send_message :: "tg_world \<Rightarrow> ustring \<Rightarrow> tg_state \<Rightarrow> bool \<times> tg_state" where
  "send_message w text st =
     (let st1 = log_event (CallSendMessage text) st in
      if text = [] then (False, st1)
      else
        (case get_bot w st1 of
           None \<Rightarrow> (False, st1)
         | Some st2 \<Rightarrow> bot_request w (BotSendMessage text) st2))"

text \<open>\<open>send_photo\<close>, in the same way, with the guard on empty photo bytes.\<close>

definition send_photo ::
  "tg_world \<Rightarrow> bytes \<Rightarrow> ustring option \<Rightarrow> tg_state \<Rightarrow> bool \<times> tg_state" where
  "send_photo w photo_bytes caption st =
     (let st1 = log_event (CallSendPhoto photo_bytes caption) st in
      if photo_bytes = [] then (False, st1)
      else
        (case get_bot w st1 of
           None \<Rightarrow> (False, st1)
         | Some st2 \<Rightarrow> bot_request w (BotSendPhoto photo_bytes caption) st2))"

text \<open>
  \<open>send_weather_report\<close>. Both methods it calls catch every exception themselves, so
  the handler of its own \<open>try\<close> is never entered and has no branch here. The results
  of the two fallback calls are discarded and \<open>result\<close> is set to \<open>True\<close>.
\<close>

definition send_weather_report ::
  "tg_world \<Rightarrow> ustring \<Rightarrow> bytes \<Rightarrow> tg_state \<Rightarrow> bool \<times> tg_state" where
  "send_weather_report w summary photo_bytes st =
     (case send_photo w photo_bytes (Some summary) st of
        (result, st1) \<Rightarrow>
          if \<not> result \<and> summary \<noteq> [] then
            (case send_photo w photo_bytes None st1 of
               (r2, st2) \<Rightarrow>
                 (case send_message w summary st2 of
                    (r3, st3) \<Rightarrow> (True, st3)))
          else (result, st1))"

text \<open>\<open>close\<close>: closes the session if a bot was created, and forgets the bot.\<close>

definition close :: "tg_state \<Rightarrow> tg_state" where
  "close st = (if tg_bot st then (log_event SessionClose st)\<lparr>tg_bot := False\<rparr> else st)"

text \<open>The client as it is when the module is loaded.\<close>

definition tg_init :: tg_state where
  "tg_init = \<lparr>tg_bot = False, tg_sent = 0, tg_trace = []\<rparr>"

text \<open>Example worlds: every send succeeds; the first send fails and the later ones succeed.\<close>

definition ex_world_ok :: tg_world where
  "ex_world_ok = \<lparr>w_bot_ok = True, w_net = (\<lambda>n ev. True)\<rparr>"

definition ex_world_first_fails :: tg_world where
  "ex_world_first_fails = \<lparr>w_bot_ok = True, w_net = (\<lambda>n ev. n \<noteq> 0)\<rparr>"

definition ex_png :: bytes where
  "ex_png = [137, 80, 78, 71]"

definition ex_summary :: ustring where  \<comment> \<open>"V Tokio"\<close>
  "ex_summary = [1042, 32, 1058, 1086, 1082, 1080, 1086]"

section \<open>Page extractor (\<open>services/browser.py\<close>, \<open>BrowserScraper\<close>)\<close>

text \<open>
  One object returned by \<open>WEATHER_SCRAPE_JS\<close> for a tile (its keys \<open>name\<close>, \<open>alt\<close>,
  \<open>max\<close>, each a string, empty when the element is missing), and the dataclass
  \<open>CityWeather\<close> of \<open>core/models.py\<close>.
\<close>

record raw_tile =
  tile_name :: ustring
  tile_alt :: ustring
  tile_max :: ustring

record CityWeather =
  cw_jp :: ustring
  cw_ru :: ustring
  cw_max_c :: ustring
  cw_alt :: ustring

text \<open>
  The browser as \<open>process\<close> sees it: for each call into the automation library, whether
  it raises and what it returns. \<open>pw_replace\<close> is the evaluation of
  \<open>REPLACE_CITY_NAMES_JS\<close> with the mapping, \<open>pw_read_names i\<close> the re-read number
  \<open>i\<close> of the name elements; both return the texts of the name elements.
\<close>

record page_world =
  pw_launch :: "error option"
  pw_goto :: "error option"
  pw_wait_for_selector :: "error option"
  pw_scrape :: "error + raw_tile list"
  pw_replace :: "(ustring \<rightharpoonup> ustring) \<Rightarrow> error + ustring list"
  pw_read_names :: "nat \<Rightarrow> error + ustring list"
  pw_add_style_tag :: "error option"
  pw_screenshot :: "error + bytes"
  pw_close :: "error option"

text \<open>The calls \<open>process\<close> makes, in the order it makes them.\<close>

datatype page_event =
    Launch
  | Goto
  | WaitForSelector
  | Sleep
  | Scrape
  | Translate "ustring list"
  | ReplaceNames
  | ReadNames
  | AddStyleTag
  | Screenshot
  | BrowserClose

text \<open>The \<open>for i in range(3)\<close> loop of \<open>replace_city_names\<close>, over the list of its indices.\<close>

fun reread_names ::
  "(nat \<Rightarrow> error + ustring list) \<Rightarrow> nat list \<Rightarrow> page_event list \<Rightarrow>
   (error + bool) \<times> page_event list" where
  "reread_names rd [] ev = (Inr False, ev)"
| "reread_names rd (i # rest) ev =
     (case rd i of
        Inl e \<Rightarrow> (Inl e, ev @ [Sleep, ReadNames])
      | Inr names \<Rightarrow>
          if list_ex cyrillic_search names then (Inr True, ev @ [Sleep, ReadNames])
          else reread_names rd rest (ev @ [Sleep, ReadNames]))"

definition replace_city_names ::
  "page_world \<Rightarrow> (ustring \<rightharpoonup> ustring) \<Rightarrow> page_event list \<Rightarrow>
   (error + bool) \<times> page_event list" where
  "replace_city_names w mapping ev =
     (case pw_replace w mapping of
        Inl e \<Rightarrow> (Inl e, ev @ [ReplaceNames])
      | Inr names \<Rightarrow>
          if list_ex cyrillic_search names then (Inr True, ev @ [ReplaceNames])
          else reread_names (pw_read_names w) [0, 1, 2] (ev @ [ReplaceNames]))"

text \<open>The list comprehension that builds \<open>weather_data\<close>; \<open>[45]\<close> is the string \<open>"-"\<close>.\<close>

definition weather_data_of ::
  "raw_tile list \<Rightarrow> (ustring \<rightharpoonup> ustring) \<Rightarrow> CityWeather list" where
  "weather_data_of raw_data mapping =
     map (\<lambda>r. \<lparr>cw_jp = tile_name r,
               cw_ru = (case mapping (tile_name r) of Some v \<Rightarrow> v | None \<Rightarrow> tile_name r),
               cw_max_c = (if tile_max r \<noteq> [45] then tile_max r else []),
               cw_alt = tile_alt r\<rparr>)
         (filter (\<lambda>r. tile_name r \<noteq> []) raw_data)"

text \<open>
  \<open>process\<close>, with the translate function it is given. Nothing in it catches an
  exception: the first call that raises ends it. The result comes with the trace of
  the calls made.
\<close>

definition process ::
  "page_world \<Rightarrow> (ustring list \<Rightarrow> error + (ustring \<rightharpoonup> ustring)) \<Rightarrow>
   (error + (CityWeather list \<times> bytes)) \<times> page_event list" where
  "process w translate_func =
     (case pw_launch w of
        Some e \<Rightarrow> (Inl e, [Launch])
      | None \<Rightarrow>
     (case pw_goto w of
        Some e \<Rightarrow> (Inl e, [Launch, Goto])
      | None \<Rightarrow>
     (case pw_wait_for_selector w of
        Some e \<Rightarrow> (Inl e, [Launch, Goto, WaitForSelector])
      | None \<Rightarrow>
     (case pw_scrape w of
        Inl e \<Rightarrow> (Inl e, [Launch, Goto, WaitForSelector, Sleep, Scrape])
      | Inr raw_data \<Rightarrow>
          if raw_data = [] then
            (Inl (RuntimeError ''No weather tiles found''),
             [Launch, Goto, WaitForSelector, Sleep, Scrape])
          else
            (let jp_names = map tile_name (filter (\<lambda>r. tile_name r \<noteq> []) raw_data);
                 ev1 = [Launch, Goto, WaitForSelector, Sleep, Scrape, Translate jp_names]
             in
             (case translate_func jp_names of
                Inl e \<Rightarrow> (Inl e, ev1)
              | Inr mapping \<Rightarrow>
             (case replace_city_names w mapping ev1 of
                (Inl e, ev2) \<Rightarrow> (Inl e, ev2)
              | (Inr dom_ok, ev2) \<Rightarrow>
             (case pw_add_style_tag w of
                Some e \<Rightarrow> (Inl e, ev2 @ [AddStyleTag])
              | None \<Rightarrow>
             (case pw_screenshot w of
                Inl e \<Rightarrow> (Inl e, ev2 @ [AddStyleTag, Screenshot])
              | Inr screenshot \<Rightarrow>
             (case pw_close w of
                Some e \<Rightarrow> (Inl e, ev2 @ [AddStyleTag, Screenshot, BrowserClose])
              | None \<Rightarrow>
                  (Inr (weather_data_of raw_data mapping, screenshot),
                   ev2 @ [AddStyleTag, Screenshot, BrowserClose])))))))))))"

fun is_translate :: "page_event \<Rightarrow> bool" where
  "is_translate (Translate ts) = True"
| "is_translate _ = False"

text \<open>
  A page on which every automation call succeeds, with given tiles; the name elements
  show no Cyrillic text, so the verification is retried and gives up.
\<close>

definition ex_page :: "raw_tile list \<Rightarrow> page_world" where
  "ex_page tiles =
     \<lparr>pw_launch = None, pw_goto = None, pw_wait_for_selector = None,
      pw_scrape = Inr tiles,
      pw_replace = (\<lambda>m. Inr []), pw_read_names = (\<lambda>i. Inr []),
      pw_add_style_tag = None, pw_screenshot = Inr ex_png, pw_close = None\<rparr>"

definition ex_nameless_tile :: raw_tile where
  "ex_nameless_tile = \<lparr>tile_name = [], tile_alt = pat_hare, tile_max = [51, 50]\<rparr>"

definition ex_tokyo_tile :: raw_tile where
  "ex_tokyo_tile = \<lparr>tile_name = ex_tokyo, tile_alt = pat_hare, tile_max = [45]\<rparr>"

section \<open>Pipeline orchestrator (\<open>run.py\<close>, \<open>WeatherReporter.run\<close>)\<close>








section \<open>Properties of the string primitives\<close>

lemma startswith_iff: "startswith s p \<longleftrightarrow> (\<exists>b. s = p @ b)"
  by (induction s p rule: startswith.induct) auto

lemma str_in_iff: "str_in p s \<longleftrightarrow> (\<exists>a b. s = a @ p @ b)"
proof (induction s)
  case Nil
  then show ?case by auto
next
  case (Cons c cs)
  show ?case
  proof
    assume "str_in p (c # cs)"
    then consider "startswith (c # cs) p" | "str_in p cs" by auto
    then show "\<exists>a b. c # cs = a @ p @ b"
    proof cases
      case 1
      then obtain b where "c # cs = p @ b" by (auto simp: startswith_iff)
      then have "c # cs = [] @ p @ b" by simp
      then show ?thesis by blast
    next
      case 2
      then obtain a b where "cs = a @ p @ b" using Cons.IH by auto
      then have "c # cs = (c # a) @ p @ b" by simp
      then show ?thesis by blast
    qed
  next
    assume "\<exists>a b. c # cs = a @ p @ b"
    then obtain a b where ab: "c # cs = a @ p @ b" by blast
    show "str_in p (c # cs)"
    proof (cases a)
      case Nil
      with ab have "startswith (c # cs) p" by (auto simp: startswith_iff)
      then show ?thesis by simp
    next
      case (Cons a0 as)
      with ab have "cs = as @ p @ b" by simp
      then have "str_in p cs" using Cons.IH by blast
      then show ?thesis by simp
    qed
  qed
qed

section \<open>The translator keeps stored values valid\<close>

lemma cyrillic_not_space: "is_cyrillic c \<Longrightarrow> \<not> is_space c"
  by (auto simp: is_cyrillic_def is_space_def)

lemma list_ex_dropWhile:
  "list_ex P s \<Longrightarrow> (\<And>c. P c \<Longrightarrow> \<not> Q c) \<Longrightarrow> list_ex P (dropWhile Q s)"
  by (induction s) auto

lemma cyrillic_search_strip: "cyrillic_search s \<Longrightarrow> cyrillic_search (strip s)"
proof -
  assume a: "cyrillic_search s"
  have l: "list_ex is_cyrillic (lstrip s)"
    using a unfolding cyrillic_search_def lstrip_def
    by (rule list_ex_dropWhile) (rule cyrillic_not_space)
  then have "list_ex is_cyrillic (rev (lstrip s))" by (simp add: list_ex_iff)
  then have "list_ex is_cyrillic (dropWhile is_space (rev (lstrip s)))"
    by (rule list_ex_dropWhile) (rule cyrillic_not_space)
  then show ?thesis
    by (simp add: cyrillic_search_def strip_def rstrip_def list_ex_iff)
qed

lemma cyrillic_search_nonempty: "cyrillic_search s \<Longrightarrow> s \<noteq> []"
  by (auto simp: cyrillic_search_def)

lemma ran_upd_valid:
  "\<forall>v\<in>ran good. valid_ru v \<Longrightarrow> cyrillic_search s \<Longrightarrow> \<forall>v\<in>ran (good(jp \<mapsto> strip s)). valid_ru v"
proof
  fix v assume a: "\<forall>v\<in>ran good. valid_ru v" "cyrillic_search s" "v \<in> ran (good(jp \<mapsto> strip s))"
  then have "v = strip s \<or> v \<in> ran good"
    by (auto simp: ran_def split: if_splits)
  then show "valid_ru v"
    using a by (auto simp: valid_ru_def cyrillic_search_strip cyrillic_search_nonempty)
qed

lemma split_items_ran:
  "split_items items good bad = Inr (g, b) \<Longrightarrow> \<forall>v\<in>ran good. valid_ru v \<Longrightarrow> \<forall>v\<in>ran g. valid_ru v"
proof (induction items arbitrary: good bad)
  case Nil
  then show ?case by simp
next
  case (Cons a items)
  obtain jp ru where a: "a = (jp, ru)" by (cases a)
  show ?case
  proof (cases "py_truthy ru")
    case False
    with Cons.prems a have "split_items items good (bad @ [jp]) = Inr (g, b)" by simp
    then show ?thesis using Cons.IH Cons.prems(2) by blast
  next
    case True
    show ?thesis
    proof (cases ru)
      case (JStr s)
      show ?thesis
      proof (cases "cyrillic_search s")
        case c: True
        with Cons.prems a True JStr
        have "split_items items (good(jp \<mapsto> strip s)) bad = Inr (g, b)" by simp
        moreover have "\<forall>v\<in>ran (good(jp \<mapsto> strip s)). valid_ru v"
          using Cons.prems(2) c by (rule ran_upd_valid)
        ultimately show ?thesis using Cons.IH by blast
      next
        case False
        with Cons.prems a True JStr
        have "split_items items good (bad @ [jp]) = Inr (g, b)" by simp
        then show ?thesis using Cons.IH Cons.prems(2) by blast
      qed
    qed (use Cons.prems a True in simp_all)
  qed
qed

lemma ran_map_add_subset: "ran (a ++ b) \<subseteq> ran a \<union> ran b"
  by (auto simp: ran_def map_add_Some_iff)

lemma translate_round_ran:
  "translate_round loads resp missing result = Inr (m, r) \<Longrightarrow>
   \<forall>v\<in>ran result. valid_ru v \<Longrightarrow> \<forall>v\<in>ran r. valid_ru v"
proof -
  assume a: "translate_round loads resp missing result = Inr (m, r)"
    and v: "\<forall>v\<in>ran result. valid_ru v"
  have "r = result \<or> (\<exists>items good bad. split_items items Map.empty [] = Inr (good, bad) \<and> r = result ++ good)"
    using a unfolding translate_round_def Let_def
    by (auto split: if_splits decoded.splits json.splits sum.splits)
  then show ?thesis
  proof
    assume "r = result" with v show ?thesis by simp
  next
    assume "\<exists>items good bad. split_items items Map.empty [] = Inr (good, bad) \<and> r = result ++ good"
    then obtain items good bad where s: "split_items items Map.empty [] = Inr (good, bad)"
      and r: "r = result ++ good" by blast
    have g: "\<forall>v\<in>ran good. valid_ru v" using split_items_ran[OF s] by simp
    show ?thesis
    proof
      fix x assume "x \<in> ran r"
      then have "x \<in> ran result \<or> x \<in> ran good"
        using ran_map_add_subset[of result good] by (auto simp: r)
      then show "valid_ru x" using g v by auto
    qed
  qed
qed

lemma translate_loop_ran:
  "translate_loop chat loads mr attempt missing result = Inr (m, r) \<Longrightarrow>
   \<forall>v\<in>ran result. valid_ru v \<Longrightarrow> \<forall>v\<in>ran r. valid_ru v"
proof (induction chat loads mr attempt missing result rule: translate_loop.induct)
  case (1 chat loads max_retries attempt missing result)
  show ?case
  proof (cases "missing \<noteq> [] \<and> attempt \<le> max_retries")
    case False
    with "1.prems" show ?thesis by (auto simp: translate_loop.simps)
  next
    case True
    note p1 = "1.prems"(1)[unfolded translate_loop.simps[of chat loads max_retries attempt missing result]]
    from True p1 obtain resp where c: "chat (attempt + 1) missing = Inr resp"
      by (cases "chat (attempt + 1) missing") (simp_all)
    from True p1 c obtain m' r' where
      t: "translate_round loads resp missing result = Inr (m', r')"
      by (cases "translate_round loads resp missing result") (auto)
    from True p1 c t
    have l: "translate_loop chat loads max_retries (attempt + 1) m' r' = Inr (m, r)" by simp
    have "\<forall>v\<in>ran r'. valid_ru v" using translate_round_ran[OF t "1.prems"(2)] .
    then show ?thesis using "1.IH"[OF True c t refl l] by simp
  qed
qed

lemma translate_valid:
  "\<forall>v\<in>ran cache. valid_ru v \<Longrightarrow> \<forall>v\<in>ran (fst (translate chat loads cache jp_terms mr)). valid_ru v"
proof -
  assume v: "\<forall>v\<in>ran cache. valid_ru v"
  let ?to_do = "filter (\<lambda>t. t \<noteq> [] \<and> cache t = None) jp_terms"
  show ?thesis
  proof (cases "translate_loop chat loads mr 0 ?to_do Map.empty")
    case (Inl e)
    then show ?thesis using v by (simp add: translate_def Let_def)
  next
    case (Inr p)
    obtain m r where p: "p = (m, r)" by (cases p)
    have r: "\<forall>v\<in>ran r. valid_ru v" using translate_loop_ran[OF Inr[unfolded p]] by simp
    have "\<forall>x\<in>ran (cache ++ r). valid_ru x"
    proof
      fix x assume "x \<in> ran (cache ++ r)"
      then have "x \<in> ran cache \<or> x \<in> ran r"
        using ran_map_add_subset[of cache r] by auto
      then show "valid_ru x" using r v by auto
    qed
    then show ?thesis using v Inr p by (simp add: translate_def Let_def)
  qed
qed

section \<open>The translator returns a dictionary over its input terms\<close>

lemma split_items_returns:
  "\<forall>(k, v)\<in>set items. py_truthy v \<longrightarrow> is_JStr v \<Longrightarrow> \<exists>g b. split_items items good bad = Inr (g, b)"
proof (induction items arbitrary: good bad)
  case Nil
  then show ?case by simp
next
  case (Cons a items)
  obtain jp ru where a: "a = (jp, ru)" by (cases a)
  from Cons.prems have rest: "\<forall>(k, v)\<in>set items. py_truthy v \<longrightarrow> is_JStr v" by simp
  from Cons.prems a have ru: "py_truthy ru \<longrightarrow> is_JStr ru" by simp
  show ?case
  proof (cases "py_truthy ru")
    case False
    then show ?thesis using Cons.IH[OF rest, of good "bad @ [jp]"] a by simp
  next
    case True
    with ru obtain s where s: "ru = JStr s" by (cases ru) simp_all
    show ?thesis
    proof (cases "cyrillic_search s")
      case c: True
      from Cons.IH[OF rest, of "good(jp \<mapsto> strip s)" bad] obtain g b where
        "split_items items (good(jp \<mapsto> strip s)) bad = Inr (g, b)" by blast
      with a s True c have "split_items (a # items) good bad = Inr (g, b)" by simp
      then show ?thesis by blast
    next
      case False
      from Cons.IH[OF rest, of good "bad @ [jp]"] obtain g b where
        "split_items items good (bad @ [jp]) = Inr (g, b)" by blast
      with a s True False have "split_items (a # items) good bad = Inr (g, b)" by simp
      then show ?thesis by blast
    qed
  qed
qed

lemma translate_round_returns:
  assumes "raises_nothing chat loads"
  shows "\<exists>m r. translate_round loads resp missing result = Inr (m, r)"
proof (cases "0 \<le> str_find resp 123 \<and> str_find resp 123 < str_rfind resp 125")
  case False
  then show ?thesis by (auto simp: translate_round_def Let_def)
next
  case True
  let ?txt = "py_slice resp (str_find resp 123) (str_rfind resp 125 + 1)"
  show ?thesis
  proof (cases "loads ?txt")
    case JSONDecodeError
    with True show ?thesis by (simp add: translate_round_def Let_def)
  next
    case (DecoderRaises e)
    with assms show ?thesis unfolding raises_nothing_def by blast
  next
    case (Decoded d)
    with assms obtain items where d: "d = JDict items"
      and ok: "\<forall>(k, v)\<in>set items. py_truthy v \<longrightarrow> is_JStr v"
      unfolding raises_nothing_def by blast
    from split_items_returns[OF ok] obtain g b where "split_items items Map.empty [] = Inr (g, b)"
      by blast
    with True Decoded d show ?thesis by (simp add: translate_round_def Let_def)
  qed
qed

lemma translate_loop_returns:
  "raises_nothing chat loads \<Longrightarrow> \<exists>m r. translate_loop chat loads mr attempt missing result = Inr (m, r)"
proof (induction chat loads mr attempt missing result rule: translate_loop.induct)
  case (1 chat loads max_retries attempt missing result)
  show ?case
  proof (cases "missing \<noteq> [] \<and> attempt \<le> max_retries")
    case False
    then show ?thesis by (auto simp: translate_loop.simps)
  next
    case True
    from "1.prems" obtain resp where c: "chat (attempt + 1) missing = Inr resp"
      unfolding raises_nothing_def by blast
    from translate_round_returns[OF "1.prems"] obtain m' r' where
      t: "translate_round loads resp missing result = Inr (m', r')" by blast
    from "1.IH"[OF True c t refl "1.prems"] obtain m r where
      "translate_loop chat loads max_retries (attempt + 1) m' r' = Inr (m, r)" by blast
    with True c t show ?thesis
      by (simp add: translate_loop.simps[of chat loads max_retries attempt missing result])
  qed
qed

lemma translate_returns:
  assumes "raises_nothing chat loads"
  shows "\<exists>cache' m. translate chat loads cache jp_terms mr = (cache', Inr m)"
proof -
  let ?to_do = "filter (\<lambda>t. t \<noteq> [] \<and> cache t = None) jp_terms"
  from translate_loop_returns[OF assms] obtain m r where
    "translate_loop chat loads mr 0 ?to_do Map.empty = Inr (m, r)" by blast
  then show ?thesis by (simp add: translate_def Let_def)
qed

lemma translate_result_shape:
  "translate chat loads cache jp_terms mr = (cache', Inr m) \<Longrightarrow> m = lookup_terms cache' jp_terms"
  by (auto simp: translate_def Let_def split: if_splits sum.splits prod.splits)


section \<open>Running the translator on the example inputs\<close>

lemmas ex_defs = ex_tokyo_def ex_kyoto_def ex_kioto_def ex_tokio_def ex_tokyo_respelled_def
  ex_resp_kyoto_def ex_resp_both_def ex_resp_number_def ex_unknown_def

lemmas eval_defs = translate_round_def py_slice_def Let_def cyrillic_search_def is_cyrillic_def
  strip_def lstrip_def rstrip_def is_space_def

lemma ex_raises_nothing: "raises_nothing ex_chat_kyoto ex_loads"
  by (auto simp: raises_nothing_def ex_chat_kyoto_def ex_loads_def split: if_splits)

lemma ex_run:
  "translate ex_chat_kyoto ex_loads CITY_TRANSLATIONS [ex_tokyo, ex_kyoto, ex_unknown] 2
   = (CITY_TRANSLATIONS ++ [ex_kyoto \<mapsto> ex_kioto],
      Inr (lookup_terms (CITY_TRANSLATIONS ++ [ex_kyoto \<mapsto> ex_kioto])
             [ex_tokyo, ex_kyoto, ex_unknown]))"
  apply (simp add: translate_def Let_def CITY_TRANSLATIONS_def CITY_TRANSLATIONS_seed_def
      ex_kyoto_def ex_tokyo_def ex_unknown_def)
  apply (simp add: translate_loop.simps[of _ _ _ _ "x # xs" for x xs]
      translate_loop.simps[of _ _ _ _ "[]"] ex_chat_kyoto_def)
  apply (simp add: eval_defs ex_defs ex_loads_def translate_loop.simps[of _ _ _ _ "[]"])
  done

lemma seed_valid: "\<forall>v\<in>ran CITY_TRANSLATIONS. valid_ru v"
proof -
  have d: "distinct (map fst CITY_TRANSLATIONS_seed)"
    by (simp add: CITY_TRANSLATIONS_seed_def)
  have "ran CITY_TRANSLATIONS = snd ` set CITY_TRANSLATIONS_seed"
    unfolding CITY_TRANSLATIONS_def by (rule ran_distinct[OF d])
  moreover have "\<forall>v\<in>snd ` set CITY_TRANSLATIONS_seed. valid_ru v"
    by (simp add: CITY_TRANSLATIONS_seed_def valid_ru_def cyrillic_search_def is_cyrillic_def)
  ultimately show ?thesis by simp
qed

section \<open>C1: the returned dictionary covers the input terms\<close>

text \<open>
  Claim C1. Whenever \<open>translate\<close> returns a dictionary, its key set is the set of the
  input terms, every input term with no entry in the cache after the call (no accepted
  translation, seeded or learned) maps to itself, and every other input term maps to its
  cache entry. \<open>translate\<close> does return a dictionary whenever neither the chat call,
  nor the decoder (other than with \<open>json.JSONDecodeError\<close>), nor the script check
  raises, whatever the responses say and for any \<open>max_retries\<close>: the loop is bounded.
\<close>

theorem translate_total:
  "(\<forall>cache' m. translate chat loads cache jp_terms max_retries = (cache', Inr m) \<longrightarrow>
      dom m = set jp_terms \<and>
      (\<forall>t\<in>set jp_terms. cache' t = None \<longrightarrow> m t = Some t) \<and>
      (\<forall>t\<in>set jp_terms. \<forall>v. cache' t = Some v \<longrightarrow> m t = Some v))
   \<and> (raises_nothing chat loads \<longrightarrow>
        (\<exists>cache' m. translate chat loads cache jp_terms max_retries = (cache', Inr m)))"
proof (intro conjI allI impI)
  fix cache' m
  assume a: "translate chat loads cache jp_terms max_retries = (cache', Inr m)"
  have m: "m = lookup_terms cache' jp_terms" using translate_result_shape[OF a] .
  show "dom m = set jp_terms"
    by (auto simp: m lookup_terms_def dom_def split: if_splits)
  show "\<forall>t\<in>set jp_terms. cache' t = None \<longrightarrow> m t = Some t"
    by (simp add: m lookup_terms_def)
  show "\<forall>t\<in>set jp_terms. \<forall>v. cache' t = Some v \<longrightarrow> m t = Some v"
    by (simp add: m lookup_terms_def)
next
  assume "raises_nothing chat loads"
  then show "\<exists>cache' m. translate chat loads cache jp_terms max_retries = (cache', Inr m)"
    by (rule translate_returns)
qed

theorem translate_total_witness:
  "dom (lookup_terms (CITY_TRANSLATIONS ++ [ex_kyoto \<mapsto> ex_kioto])
          [ex_tokyo, ex_kyoto, ex_unknown]) = {ex_tokyo, ex_kyoto, ex_unknown}
   \<and> lookup_terms (CITY_TRANSLATIONS ++ [ex_kyoto \<mapsto> ex_kioto])
          [ex_tokyo, ex_kyoto, ex_unknown] ex_unknown = Some ex_unknown
   \<and> lookup_terms (CITY_TRANSLATIONS ++ [ex_kyoto \<mapsto> ex_kioto])
          [ex_tokyo, ex_kyoto, ex_unknown] ex_kyoto = Some ex_kioto
   \<and> (\<exists>cache' m. translate ex_chat_kyoto ex_loads CITY_TRANSLATIONS
          [ex_tokyo, ex_kyoto, ex_unknown] 2 = (cache', Inr m))"
proof -
  note t = translate_total[of ex_chat_kyoto ex_loads CITY_TRANSLATIONS
      "[ex_tokyo, ex_kyoto, ex_unknown]" 2]
  note p = t[THEN conjunct1, rule_format, OF ex_run]
  have n: "(CITY_TRANSLATIONS ++ [ex_kyoto \<mapsto> ex_kioto]) ex_unknown = None"
    by (simp add: CITY_TRANSLATIONS_def CITY_TRANSLATIONS_seed_def ex_defs)
  have k: "(CITY_TRANSLATIONS ++ [ex_kyoto \<mapsto> ex_kioto]) ex_kyoto = Some ex_kioto"
    by simp
  from p have "dom (lookup_terms (CITY_TRANSLATIONS ++ [ex_kyoto \<mapsto> ex_kioto])
          [ex_tokyo, ex_kyoto, ex_unknown]) = {ex_tokyo, ex_kyoto, ex_unknown}" by simp
  moreover from p n have "lookup_terms (CITY_TRANSLATIONS ++ [ex_kyoto \<mapsto> ex_kioto])
          [ex_tokyo, ex_kyoto, ex_unknown] ex_unknown = Some ex_unknown" by simp
  moreover from p k have "lookup_terms (CITY_TRANSLATIONS ++ [ex_kyoto \<mapsto> ex_kioto])
          [ex_tokyo, ex_kyoto, ex_unknown] ex_kyoto = Some ex_kioto" by simp
  moreover from t ex_raises_nothing have "\<exists>cache' m. translate ex_chat_kyoto ex_loads
      CITY_TRANSLATIONS [ex_tokyo, ex_kyoto, ex_unknown] 2 = (cache', Inr m)" by blast
  ultimately show ?thesis by blast
qed

section \<open>C4: script validity of the cache\<close>

text \<open>
  Claim C4. If every value in the cache before a call to \<open>translate\<close> is not empty and
  has a Cyrillic character, so is every value in the cache after the call, whether the
  call returns or raises; and, with no assumption on the cache, every entry of the cache
  after the call either was there before with the same value or is not empty and has a
  Cyrillic character: no candidate failing the script check is stored. The seeded
  dictionary satisfies the assumption (\<open>seed_valid\<close>).
\<close>

theorem script_validity_invariant:
  "((\<forall>v\<in>ran cache. valid_ru v) \<longrightarrow>
      (\<forall>v\<in>ran (fst (translate chat loads cache jp_terms max_retries)). valid_ru v))
   \<and> (\<forall>k v. fst (translate chat loads cache jp_terms max_retries) k = Some v \<longrightarrow>
        cache k = Some v \<or> valid_ru v)"
proof (intro conjI allI impI)
  assume "\<forall>v\<in>ran cache. valid_ru v"
  then show "\<forall>v\<in>ran (fst (translate chat loads cache jp_terms max_retries)). valid_ru v"
    by (rule translate_valid)
next
  fix k v
  assume a: "fst (translate chat loads cache jp_terms max_retries) k = Some v"
  let ?to_do = "filter (\<lambda>t. t \<noteq> [] \<and> cache t = None) jp_terms"
  show "cache k = Some v \<or> valid_ru v"
  proof (cases "translate_loop chat loads max_retries 0 ?to_do Map.empty")
    case (Inl e)
    with a show ?thesis by (simp add: translate_def Let_def split: if_splits)
  next
    case (Inr p)
    obtain m r where p: "p = (m, r)" by (cases p)
    have r: "\<forall>v\<in>ran r. valid_ru v" using translate_loop_ran[OF Inr[unfolded p]] by simp
    from a Inr p have "cache k = Some v \<or> (cache ++ r) k = Some v"
      by (simp add: translate_def Let_def split: if_splits)
    then have "cache k = Some v \<or> r k = Some v"
      by (auto simp: map_add_Some_iff)
    then show ?thesis using r by (auto simp: ran_def)
  qed
qed

theorem script_validity_invariant_witness:
  "fst (translate ex_chat_kyoto ex_loads CITY_TRANSLATIONS [ex_tokyo, ex_kyoto, ex_unknown] 2)
     ex_kyoto = Some ex_kioto
   \<and> valid_ru ex_kioto"
proof -
  note t = script_validity_invariant[of CITY_TRANSLATIONS ex_chat_kyoto ex_loads
      "[ex_tokyo, ex_kyoto, ex_unknown]" 2]
  have k: "fst (translate ex_chat_kyoto ex_loads CITY_TRANSLATIONS
      [ex_tokyo, ex_kyoto, ex_unknown] 2) ex_kyoto = Some ex_kioto"
    by (simp add: ex_run)
  then have "ex_kioto \<in> ran (fst (translate ex_chat_kyoto ex_loads CITY_TRANSLATIONS
      [ex_tokyo, ex_kyoto, ex_unknown] 2))"
    by (auto simp: ran_def)
  with t seed_valid have "valid_ru ex_kioto" by blast
  with k show ?thesis by simp
qed

section \<open>Which keys of the cache a call can change\<close>

lemma split_items_keys:
  "split_items items good bad = Inr (g, b) \<Longrightarrow> g k = Some v \<Longrightarrow>
   good k \<noteq> None \<or> (\<exists>s. (k, JStr s) \<in> set items \<and> cyrillic_search s)"
proof (induction items arbitrary: good bad)
  case Nil
  then show ?case by auto
next
  case (Cons a items)
  obtain jp ru where a: "a = (jp, ru)" by (cases a)
  show ?case
  proof (cases "py_truthy ru")
    case False
    with Cons.prems a have "split_items items good (bad @ [jp]) = Inr (g, b)" by simp
    from Cons.IH[OF this Cons.prems(2)] show ?thesis by auto
  next
    case True
    show ?thesis
    proof (cases ru)
      case (JStr s)
      show ?thesis
      proof (cases "cyrillic_search s")
        case c: True
        with Cons.prems a True JStr
        have "split_items items (good(jp \<mapsto> strip s)) bad = Inr (g, b)" by simp
        from Cons.IH[OF this Cons.prems(2)]
        have "(good(jp \<mapsto> strip s)) k \<noteq> None \<or>
            (\<exists>s. (k, JStr s) \<in> set items \<and> cyrillic_search s)" .
        then show ?thesis using a JStr c by (cases "k = jp") auto
      next
        case False
        with Cons.prems a True JStr
        have "split_items items good (bad @ [jp]) = Inr (g, b)" by simp
        from Cons.IH[OF this Cons.prems(2)] show ?thesis by auto
      qed
    qed (use Cons.prems a True in simp_all)
  qed
qed

lemma translate_round_dom:
  assumes c: "chat a ms = Inr resp"
    and t: "translate_round loads resp missing result = Inr (m, r)"
  shows "dom r \<subseteq> dom result \<union> {k. offered chat loads k}"
proof (cases "0 \<le> str_find resp 123 \<and> str_find resp 123 < str_rfind resp 125")
  case False
  with t show ?thesis by (auto simp: translate_round_def Let_def)
next
  case True
  let ?txt = "py_slice resp (str_find resp 123) (str_rfind resp 125 + 1)"
  show ?thesis
  proof (cases "loads ?txt")
    case JSONDecodeError
    with True t show ?thesis by (auto simp: translate_round_def Let_def)
  next
    case (DecoderRaises e)
    with True t show ?thesis by (auto simp: translate_round_def Let_def)
  next
    case (Decoded d)
    show ?thesis
    proof (cases d)
      case (JDict items)
      from True Decoded JDict t obtain good bad where
        s: "split_items items Map.empty [] = Inr (good, bad)" and r: "r = result ++ good"
        by (auto simp: translate_round_def Let_def split: sum.splits)
      have "dom good \<subseteq> {k. offered chat loads k}"
      proof
        fix k assume "k \<in> dom good"
        then obtain v where "good k = Some v" by auto
        from split_items_keys[OF s this] obtain s' where
          "(k, JStr s') \<in> set items" "cyrillic_search s'"
          by auto
        with c True Decoded JDict have "offered chat loads k"
          unfolding offered_def by blast
        then show "k \<in> {k. offered chat loads k}" by simp
      qed
      then show ?thesis by (auto simp: r)
    qed (use True Decoded t in \<open>simp_all add: translate_round_def Let_def\<close>)
  qed
qed

lemma translate_loop_dom:
  "translate_loop chat loads mr attempt missing result = Inr (m, r) \<Longrightarrow>
   dom r \<subseteq> dom result \<union> {k. offered chat loads k}"
proof (induction chat loads mr attempt missing result rule: translate_loop.induct)
  case (1 chat loads max_retries attempt missing result)
  show ?case
  proof (cases "missing \<noteq> [] \<and> attempt \<le> max_retries")
    case False
    with "1.prems" show ?thesis by (auto simp: translate_loop.simps)
  next
    case True
    note p1 = "1.prems"(1)[unfolded translate_loop.simps[of chat loads max_retries attempt missing result]]
    from True p1 obtain resp where c: "chat (attempt + 1) missing = Inr resp"
      by (cases "chat (attempt + 1) missing") (simp_all)
    from True p1 c obtain m' r' where
      t: "translate_round loads resp missing result = Inr (m', r')"
      by (cases "translate_round loads resp missing result") (auto)
    from True p1 c t
    have l: "translate_loop chat loads max_retries (attempt + 1) m' r' = Inr (m, r)" by simp
    from "1.IH"[OF True c t refl l] translate_round_dom[where chat = chat and a = "attempt + 1" and ms = missing, OF c t]
    show ?thesis by blast
  qed
qed

lemma translate_cache_shape:
  "fst (translate chat loads cache jp_terms mr) = cache \<or>
   (\<exists>m r. translate_loop chat loads mr 0 (filter (\<lambda>t. t \<noteq> [] \<and> cache t = None) jp_terms) Map.empty = Inr (m, r)
      \<and> fst (translate chat loads cache jp_terms mr) = cache ++ r)"
  by (auto simp: translate_def Let_def split: sum.splits)

lemma ex_run_both:
  "fst (translate ex_chat_both ex_loads CITY_TRANSLATIONS [ex_tokyo, ex_kyoto] 2) ex_tokyo
     = Some ex_tokyo_respelled"
  apply (simp add: translate_def Let_def CITY_TRANSLATIONS_def CITY_TRANSLATIONS_seed_def
      ex_kyoto_def ex_tokyo_def)
  apply (simp add: translate_loop.simps[of _ _ _ _ "x # xs" for x xs]
      translate_loop.simps[of _ _ _ _ "[]"] ex_chat_both_def)
  apply (simp add: eval_defs ex_defs ex_loads_def translate_loop.simps[of _ _ _ _ "[]"])
  done

lemma seed_tokyo: "CITY_TRANSLATIONS ex_tokyo = Some ex_tokio"
  by (simp add: CITY_TRANSLATIONS_def CITY_TRANSLATIONS_seed_def ex_defs)

lemma not_offered_tokyo: "\<not> offered ex_chat_kyoto ex_loads ex_tokyo"
  by (auto simp: offered_def ex_chat_kyoto_def ex_loads_def ex_defs py_slice_def split: if_splits)

section \<open>C3: what a call does to the entries already in the cache\<close>

text \<open>
  Claim C3 as stated fails: \<open>translate\<close> stores the accepted candidates under whatever
  keys the response holds and does not restrict them to the terms it asked for. With Tokyo
  seeded, a call for Tokyo and Kyoto asks the capability for Kyoto only; a response that
  also holds a Cyrillic candidate for Tokyo replaces the seeded entry.
\<close>

theorem cache_overwritten_counterexample:
  "CITY_TRANSLATIONS ex_tokyo = Some ex_tokio
   \<and> fst (translate ex_chat_both ex_loads CITY_TRANSLATIONS [ex_tokyo, ex_kyoto] 2) ex_tokyo
       = Some ex_tokyo_respelled
   \<and> ex_tokyo_respelled \<noteq> ex_tokio"
  using seed_tokyo ex_run_both by (simp add: ex_defs)

text \<open>
  Claim C3, amended. A call to \<open>translate\<close> removes no key from the cache, and every key
  present before the call maps to the same value after it unless a response of the
  capability offers for that key a candidate that passes the script check.
\<close>

theorem cache_entries_kept_unless_offered:
  "dom cache \<subseteq> dom (fst (translate chat loads cache jp_terms max_retries))
   \<and> (\<forall>k v. cache k = Some v \<and> \<not> offered chat loads k \<longrightarrow>
        fst (translate chat loads cache jp_terms max_retries) k = Some v)"
proof -
  from translate_cache_shape[of chat loads cache jp_terms max_retries]
  show ?thesis
  proof
    assume "fst (translate chat loads cache jp_terms max_retries) = cache"
    then show ?thesis by simp
  next
    assume "\<exists>m r. translate_loop chat loads max_retries 0
        (filter (\<lambda>t. t \<noteq> [] \<and> cache t = None) jp_terms) Map.empty = Inr (m, r)
      \<and> fst (translate chat loads cache jp_terms max_retries) = cache ++ r"
    then obtain m r where l: "translate_loop chat loads max_retries 0
        (filter (\<lambda>t. t \<noteq> [] \<and> cache t = None) jp_terms) Map.empty = Inr (m, r)"
      and f: "fst (translate chat loads cache jp_terms max_retries) = cache ++ r" by blast
    from translate_loop_dom[OF l] have d: "dom r \<subseteq> {k. offered chat loads k}" by simp
    have "\<forall>k v. cache k = Some v \<and> \<not> offered chat loads k \<longrightarrow> (cache ++ r) k = Some v"
    proof (intro allI impI)
      fix k v assume a: "cache k = Some v \<and> \<not> offered chat loads k"
      with d have "r k = None" by auto
      with a show "(cache ++ r) k = Some v" by (simp add: map_add_def)
    qed
    then show ?thesis by (simp add: f)
  qed
qed

theorem cache_entries_kept_unless_offered_witness:
  "fst (translate ex_chat_kyoto ex_loads CITY_TRANSLATIONS [ex_tokyo, ex_kyoto, ex_unknown] 2)
     ex_tokyo = Some ex_tokio"
  using cache_entries_kept_unless_offered[of CITY_TRANSLATIONS ex_chat_kyoto ex_loads
      "[ex_tokyo, ex_kyoto, ex_unknown]" 2] seed_tokyo not_offered_tokyo
  by blast

section \<open>The classifier on its own outputs\<close>

lemmas pats = pat_kaminari_def pat_yuki_def pat_hare_tokidoki_kumori_def pat_kumori_tokidoki_ame_def
  pat_ame_tokidoki_yamu_def pat_ame_def pat_hare_def pat_kumo_def pat_kumori_kanji_def
lemmas cats = cat_groza_def cat_sneg_def cat_solnechno_oblachno_def cat_oblachno_dozhd_def
  cat_dozhd_proyasneniya_def cat_dozhd_def cat_solnechno_def cat_oblachno_def

lemma cw_fm: "categorize_weather alt = first_match weather_patterns alt"
  by (simp add: categorize_weather_def weather_patterns_def)

lemma fix_groza: "categorize_weather cat_groza = cat_groza"
  by (simp add: categorize_weather_def pats cats)
lemma fix_sneg: "categorize_weather cat_sneg = cat_sneg"
  by (simp add: categorize_weather_def pats cats)
lemma fix_so: "categorize_weather cat_solnechno_oblachno = cat_solnechno_oblachno"
  by (simp add: categorize_weather_def pats cats)
lemma fix_od: "categorize_weather cat_oblachno_dozhd = cat_oblachno_dozhd"
  by (simp add: categorize_weather_def pats cats)
lemma fix_dp: "categorize_weather cat_dozhd_proyasneniya = cat_dozhd_proyasneniya"
  by (simp add: categorize_weather_def pats cats)
lemma fix_d: "categorize_weather cat_dozhd = cat_dozhd"
  by (simp add: categorize_weather_def pats cats)
lemma fix_s: "categorize_weather cat_solnechno = cat_solnechno"
  by (simp add: categorize_weather_def pats cats)
lemma fix_o: "categorize_weather cat_oblachno = cat_oblachno"
  by (simp add: categorize_weather_def pats cats)

lemma cats_distinct:
  "cat_groza \<notin> {cat_dozhd, cat_solnechno, cat_oblachno}"
  "cat_sneg \<notin> {cat_dozhd, cat_solnechno, cat_oblachno}"
  "cat_solnechno_oblachno \<notin> {cat_dozhd, cat_solnechno, cat_oblachno}"
  "cat_oblachno_dozhd \<notin> {cat_dozhd, cat_solnechno, cat_oblachno}"
  "cat_dozhd_proyasneniya \<notin> {cat_dozhd, cat_solnechno, cat_oblachno}"
  by (simp_all add: cats)

section \<open>C8: ordered first match\<close>

text \<open>
  Claim C8. \<open>_categorize_weather\<close> is the first-match function over the fixed list
  \<open>weather_patterns\<close> (storm, snow, the three compound patterns, rain, sunny, cloudy, in
  that order); an input in which no pattern occurs is returned unchanged; an input in
  which a compound pattern occurs is never given the category of a simple pattern (rain,
  sunny, cloudy); and an input in which "cloudy, at times rain" occurs and no earlier
  pattern of the list does gets the category of that compound pattern.
\<close>

theorem categorize_weather_first_match:
  "categorize_weather alt = first_match weather_patterns alt
   \<and> ((\<forall>(ps, c)\<in>set weather_patterns. \<forall>p\<in>set ps. \<not> str_in p alt) \<longrightarrow>
        categorize_weather alt = alt)
   \<and> (str_in pat_hare_tokidoki_kumori alt \<or> str_in pat_kumori_tokidoki_ame alt \<or>
        str_in pat_ame_tokidoki_yamu alt \<longrightarrow>
        categorize_weather alt \<notin> {cat_dozhd, cat_solnechno, cat_oblachno})
   \<and> (str_in pat_kumori_tokidoki_ame alt \<and> \<not> str_in pat_kaminari alt \<and>
        \<not> str_in pat_yuki alt \<and> \<not> str_in pat_hare_tokidoki_kumori alt \<longrightarrow>
        categorize_weather alt = cat_oblachno_dozhd)"
proof (intro conjI impI)
  show "categorize_weather alt = first_match weather_patterns alt"
    by (rule cw_fm)
  show "categorize_weather alt = alt"
    if "\<forall>(ps, c)\<in>set weather_patterns. \<forall>p\<in>set ps. \<not> str_in p alt"
    using that by (simp add: categorize_weather_def weather_patterns_def)
  show "categorize_weather alt \<notin> {cat_dozhd, cat_solnechno, cat_oblachno}"
    if "str_in pat_hare_tokidoki_kumori alt \<or> str_in pat_kumori_tokidoki_ame alt \<or>
        str_in pat_ame_tokidoki_yamu alt"
  proof -
    from that have "categorize_weather alt \<in> {cat_groza, cat_sneg, cat_solnechno_oblachno,
        cat_oblachno_dozhd, cat_dozhd_proyasneniya}"
      unfolding categorize_weather_def by auto
    then show ?thesis using cats_distinct by fastforce
  qed
  show "categorize_weather alt = cat_oblachno_dozhd"
    if "str_in pat_kumori_tokidoki_ame alt \<and> \<not> str_in pat_kaminari alt \<and>
        \<not> str_in pat_yuki alt \<and> \<not> str_in pat_hare_tokidoki_kumori alt"
    using that by (simp add: categorize_weather_def)
qed

text \<open>
  The alt text "cloudy, at times rain" itself contains the rain character; it is
  classified as the compound, not as rain.
\<close>

theorem categorize_weather_first_match_witness:
  "str_in pat_ame pat_kumori_tokidoki_ame
   \<and> categorize_weather pat_kumori_tokidoki_ame = cat_oblachno_dozhd
   \<and> cat_oblachno_dozhd \<noteq> cat_dozhd
   \<and> categorize_weather [26376] = [26376]"
proof -
  have h: "str_in pat_kumori_tokidoki_ame pat_kumori_tokidoki_ame \<and>
      \<not> str_in pat_kaminari pat_kumori_tokidoki_ame \<and>
      \<not> str_in pat_yuki pat_kumori_tokidoki_ame \<and>
      \<not> str_in pat_hare_tokidoki_kumori pat_kumori_tokidoki_ame"
    by (simp add: pats)
  have n: "\<forall>(ps, c)\<in>set weather_patterns. \<forall>p\<in>set ps. \<not> str_in p [26376]"
    by (simp add: weather_patterns_def pats)
  have r: "str_in pat_ame pat_kumori_tokidoki_ame" by (simp add: pats)
  have d: "cat_oblachno_dozhd \<noteq> cat_dozhd" by (simp add: cats)
  from categorize_weather_first_match[of pat_kumori_tokidoki_ame] h
  have "categorize_weather pat_kumori_tokidoki_ame = cat_oblachno_dozhd" by blast
  moreover from categorize_weather_first_match[of "[26376]"] n
  have "categorize_weather [26376] = [26376]" by blast
  ultimately show ?thesis using r d by simp
qed

section \<open>C9: classification is idempotent\<close>

text \<open>
  Claim C9. Classifying the output of the classifier returns that output: each canonical
  phrase contains none of the patterns, and an input returned unchanged contains none
  either.
\<close>

theorem categorize_weather_idempotent:
  "categorize_weather (categorize_weather x) = categorize_weather x"
proof -
  consider "categorize_weather x = cat_groza" | "categorize_weather x = cat_sneg"
    | "categorize_weather x = cat_solnechno_oblachno" | "categorize_weather x = cat_oblachno_dozhd"
    | "categorize_weather x = cat_dozhd_proyasneniya" | "categorize_weather x = cat_dozhd"
    | "categorize_weather x = cat_solnechno" | "categorize_weather x = cat_oblachno"
    | "categorize_weather x = x"
    unfolding categorize_weather_def by presburger
  then show ?thesis
    by cases (simp_all add: fix_groza fix_sneg fix_so fix_od fix_dp fix_d fix_s fix_o)
qed

theorem categorize_weather_idempotent_witness:
  "categorize_weather (categorize_weather pat_kumori_tokidoki_ame) = cat_oblachno_dozhd"
proof -
  have "categorize_weather pat_kumori_tokidoki_ame = cat_oblachno_dozhd"
    by (simp add: categorize_weather_def pats)
  with categorize_weather_idempotent[of pat_kumori_tokidoki_ame] show ?thesis by simp
qed

section \<open>Report delivery\<close>

lemmas tg_defs = send_weather_report_def send_photo_def send_message_def get_bot_def
  bot_request_def log_event_def Let_def

section \<open>C5: empty summary or empty image\<close>

text \<open>
  Claim C5 as stated fails. \<open>send_weather_report\<close> has no guard on the summary: with
  an empty summary and a non-empty image the image is sent with the empty caption, and
  when that send succeeds the report is delivered and \<open>True\<close> is returned.
\<close>

theorem empty_summary_is_sent_counterexample:
  "fst (send_weather_report ex_world_ok [] ex_png tg_init) = True
   \<and> filter is_net (tg_trace (snd (send_weather_report ex_world_ok [] ex_png tg_init)))
       = [BotSendPhoto ex_png (Some [])]"
  by (simp add: tg_defs ex_world_ok_def ex_png_def tg_init_def)

text \<open>
  With empty image bytes and a non-empty summary the guard in \<open>send_photo\<close> refuses the
  image twice, the summary is still sent as a text message and \<open>True\<close> is returned,
  although the docstring of \<open>send_weather_report\<close> promises \<open>True\<close> only if both the
  message and the photo were sent.
\<close>

lemma empty_photo_reported_as_sent:
  "fst (send_weather_report ex_world_ok ex_summary [] tg_init) = True
   \<and> filter is_net (tg_trace (snd (send_weather_report ex_world_ok ex_summary [] tg_init)))
       = [BotSendMessage ex_summary]"
  by (simp add: tg_defs ex_world_ok_def ex_summary_def tg_init_def)

text \<open>
  Claim C5, amended. When the summary and the image bytes are both empty,
  \<open>send_weather_report\<close> returns \<open>False\<close> and attempts no network send. When the summary
  is empty and the image is not, it does exactly what \<open>send_photo\<close> with the empty
  caption does, with no fallback: one network send of the image (if the bot can be
  constructed), whose outcome is the result.
\<close>

theorem empty_report_delivery:
  "(summary = [] \<and> photo_bytes = [] \<longrightarrow>
      fst (send_weather_report w summary photo_bytes st) = False
      \<and> filter is_net (tg_trace (snd (send_weather_report w summary photo_bytes st)))
          = filter is_net (tg_trace st))
   \<and> (summary = [] \<and> photo_bytes \<noteq> [] \<longrightarrow>
        send_weather_report w summary photo_bytes st = send_photo w photo_bytes (Some []) st)
   \<and> (summary = [] \<and> photo_bytes \<noteq> [] \<and> (tg_bot st \<or> w_bot_ok w) \<longrightarrow>
        fst (send_weather_report w summary photo_bytes st)
          = w_net w (tg_sent st) (BotSendPhoto photo_bytes (Some []))
        \<and> filter is_net (tg_trace (snd (send_weather_report w summary photo_bytes st)))
            = filter is_net (tg_trace st) @ [BotSendPhoto photo_bytes (Some [])])"
  by (auto simp: tg_defs split: prod.splits option.splits if_splits)

theorem empty_report_delivery_witness:
  "fst (send_weather_report ex_world_ok [] [] tg_init) = False
   \<and> filter is_net (tg_trace (snd (send_weather_report ex_world_ok [] [] tg_init))) = []
   \<and> send_weather_report ex_world_ok [] ex_png tg_init = send_photo ex_world_ok ex_png (Some []) tg_init"
  using empty_report_delivery[of "[]" "[]" ex_world_ok tg_init]
    empty_report_delivery[of "[]" ex_png ex_world_ok tg_init]
  by (simp add: tg_init_def ex_png_def)

section \<open>C6: the delivery fallback\<close>

text \<open>
  Claim C6. If the summary is not empty and the combined \<open>send_photo\<close> with the summary
  as caption returns \<open>False\<close>, then \<open>send_weather_report\<close> makes exactly two more send
  calls, \<open>send_photo\<close> without caption and then \<open>send_message\<close> with the summary, and
  returns \<open>True\<close>. When the image bytes are not empty and the bot can be constructed,
  each of the three calls is one network send, in that order.
\<close>

theorem delivery_fallback:
  "summary \<noteq> [] \<and> fst (send_photo w photo_bytes (Some summary) st) = False \<longrightarrow>
     fst (send_weather_report w summary photo_bytes st) = True
     \<and> filter is_call (tg_trace (snd (send_weather_report w summary photo_bytes st)))
         = filter is_call (tg_trace st)
           @ [CallSendPhoto photo_bytes (Some summary), CallSendPhoto photo_bytes None,
              CallSendMessage summary]
     \<and> (photo_bytes \<noteq> [] \<and> (tg_bot st \<or> w_bot_ok w) \<longrightarrow>
          filter is_net (tg_trace (snd (send_weather_report w summary photo_bytes st)))
            = filter is_net (tg_trace st)
              @ [BotSendPhoto photo_bytes (Some summary), BotSendPhoto photo_bytes None,
                 BotSendMessage summary])"
  by (auto simp: tg_defs split: prod.splits option.splits if_splits)

theorem delivery_fallback_witness:
  "fst (send_photo ex_world_first_fails ex_png (Some ex_summary) tg_init) = False
   \<and> fst (send_weather_report ex_world_first_fails ex_summary ex_png tg_init) = True
   \<and> filter is_net (tg_trace (snd (send_weather_report ex_world_first_fails ex_summary ex_png tg_init)))
       = [BotSendPhoto ex_png (Some ex_summary), BotSendPhoto ex_png None, BotSendMessage ex_summary]"
proof -
  have h: "ex_summary \<noteq> [] \<and> fst (send_photo ex_world_first_fails ex_png (Some ex_summary) tg_init) = False"
    by (simp add: tg_defs ex_world_first_fails_def ex_png_def ex_summary_def tg_init_def)
  have p: "ex_png \<noteq> [] \<and> (tg_bot tg_init \<or> w_bot_ok ex_world_first_fails)"
    by (simp add: ex_world_first_fails_def ex_png_def)
  have e: "filter is_net (tg_trace tg_init) = []" by (simp add: tg_init_def)
  from delivery_fallback[of ex_summary ex_world_first_fails ex_png tg_init] h p e
  show ?thesis by simp
qed

section \<open>The page extractor\<close>

lemma reread_names_ok:
  "\<forall>i. \<exists>ns. rd i = Inr ns \<Longrightarrow> \<exists>b. fst (reread_names rd is ev) = Inr b"
proof (induction "is" arbitrary: ev)
  case Nil
  then show ?case by auto
next
  case (Cons i rest)
  from Cons.prems obtain ns where n: "rd i = Inr ns" by blast
  show ?case
  proof (cases "list_ex cyrillic_search ns")
    case True
    with n show ?thesis by auto
  next
    case False
    with n Cons.IH[OF Cons.prems, of "ev @ [Sleep, ReadNames]"] show ?thesis by auto
  qed
qed

lemma replace_city_names_ok:
  assumes "\<forall>m. \<exists>ns. pw_replace w m = Inr ns" "\<forall>i. \<exists>ns. pw_read_names w i = Inr ns"
  shows "\<exists>b. fst (replace_city_names w mapping ev) = Inr b"
proof -
  from assms(1) obtain ns where n: "pw_replace w mapping = Inr ns" by blast
  show ?thesis
  proof (cases "list_ex cyrillic_search ns")
    case True
    with n show ?thesis by (auto simp: replace_city_names_def)
  next
    case False
    with n reread_names_ok[OF assms(2), of "[0, 1, 2]" "ev @ [ReplaceNames]"]
    show ?thesis by (auto simp: replace_city_names_def)
  qed
qed

lemma translate_no_terms:
  "translate chat loads cache [] max_retries = (cache, Inr Map.empty)"
  by (simp add: translate_def lookup_terms_def)

lemma weather_data_of_names:
  "map cw_jp (weather_data_of raw_data mapping) = filter (\<lambda>n. n \<noteq> []) (map tile_name raw_data)"
  by (induction raw_data) (auto simp: weather_data_of_def)

lemma process_result_shape:
  "fst (process w tf) = Inr (records, shot) \<Longrightarrow>
   \<exists>raw_data mapping. pw_scrape w = Inr raw_data \<and> raw_data \<noteq> [] \<and>
      records = weather_data_of raw_data mapping"
  by (auto simp: process_def Let_def split: option.splits sum.splits if_splits prod.splits)

lemmas page_defs = process_def replace_city_names_def weather_data_of_def ex_page_def Let_def


section \<open>C7: no tiles\<close>

text \<open>
  Claim C7. When the scrape returns no tile, \<open>process\<close> ends with an exception, and
  neither the translate function nor the screenshot is called; when the page was opened
  and the container found, the exception is \<open>RuntimeError('No weather tiles found')\<close>.
\<close>

theorem no_tiles_is_fatal:
  "pw_scrape w = Inr [] \<longrightarrow>
     (\<exists>e. fst (process w translate_func) = Inl e)
     \<and> \<not> list_ex is_translate (snd (process w translate_func))
     \<and> Screenshot \<notin> set (snd (process w translate_func))
     \<and> (pw_launch w = None \<and> pw_goto w = None \<and> pw_wait_for_selector w = None \<longrightarrow>
          fst (process w translate_func) = Inl (RuntimeError ''No weather tiles found''))"
  by (auto simp: process_def split: option.splits)

theorem no_tiles_is_fatal_witness:
  "fst (process (ex_page []) (\<lambda>ts. snd (translate ex_chat_kyoto ex_loads CITY_TRANSLATIONS ts 2)))
     = Inl (RuntimeError ''No weather tiles found'')
   \<and> \<not> list_ex is_translate
         (snd (process (ex_page []) (\<lambda>ts. snd (translate ex_chat_kyoto ex_loads CITY_TRANSLATIONS ts 2))))
   \<and> Screenshot \<notin> set
         (snd (process (ex_page []) (\<lambda>ts. snd (translate ex_chat_kyoto ex_loads CITY_TRANSLATIONS ts 2))))"
  using no_tiles_is_fatal[of "ex_page []"
      "\<lambda>ts. snd (translate ex_chat_kyoto ex_loads CITY_TRANSLATIONS ts 2)"]
  by (simp add: ex_page_def)

section \<open>C10: records have a source name\<close>

text \<open>
  Claim C10. Every record \<open>process\<close> returns has a non-empty source name: the records
  are built from exactly the tiles whose name is not empty, in order. Tiles with an empty
  name still count as tiles for the no-tiles check: on a page with at least one tile and
  only empty names, where every automation call succeeds, \<open>process\<close> with \<open>translate\<close>
  returns the empty record list with the screenshot and raises nothing, whatever the
  generation capability would do (translate is given no term and makes no chat call).
\<close>

theorem records_have_names:
  "(\<forall>records shot. fst (process w translate_func) = Inr (records, shot) \<longrightarrow>
      (\<forall>r\<in>set records. cw_jp r \<noteq> [])
      \<and> (\<exists>raw_data. pw_scrape w = Inr raw_data \<and>
            map cw_jp records = filter (\<lambda>n. n \<noteq> []) (map tile_name raw_data)))
   \<and> (pw_launch w = None \<and> pw_goto w = None \<and> pw_wait_for_selector w = None \<and>
       pw_scrape w = Inr raw \<and> raw \<noteq> [] \<and> (\<forall>r\<in>set raw. tile_name r = []) \<and>
       (\<forall>m. \<exists>ns. pw_replace w m = Inr ns) \<and> (\<forall>i. \<exists>ns. pw_read_names w i = Inr ns) \<and>
       pw_add_style_tag w = None \<and> pw_screenshot w = Inr shot0 \<and> pw_close w = None \<longrightarrow>
       fst (process w (\<lambda>ts. snd (translate chat loads cache ts 2))) = Inr ([], shot0))"
proof (intro conjI allI impI)
  fix records shot
  assume a: "fst (process w translate_func) = Inr (records, shot)"
  from process_result_shape[OF a] obtain raw_data mapping where
    s: "pw_scrape w = Inr raw_data" and r: "records = weather_data_of raw_data mapping"
    by blast
  have n: "map cw_jp records = filter (\<lambda>n. n \<noteq> []) (map tile_name raw_data)"
    by (simp add: r weather_data_of_names)
  show "\<forall>r\<in>set records. cw_jp r \<noteq> []"
  proof
    fix x assume "x \<in> set records"
    then have "cw_jp x \<in> set (map cw_jp records)" by simp
    then show "cw_jp x \<noteq> []" unfolding n by simp
  qed
  from s n show "\<exists>raw_data. pw_scrape w = Inr raw_data \<and>
      map cw_jp records = filter (\<lambda>n. n \<noteq> []) (map tile_name raw_data)" by blast
next
  assume a: "pw_launch w = None \<and> pw_goto w = None \<and> pw_wait_for_selector w = None \<and>
       pw_scrape w = Inr raw \<and> raw \<noteq> [] \<and> (\<forall>r\<in>set raw. tile_name r = []) \<and>
       (\<forall>m. \<exists>ns. pw_replace w m = Inr ns) \<and> (\<forall>i. \<exists>ns. pw_read_names w i = Inr ns) \<and>
       pw_add_style_tag w = None \<and> pw_screenshot w = Inr shot0 \<and> pw_close w = None"
  then have f: "filter (\<lambda>r. tile_name r \<noteq> []) raw = []" by (auto simp: filter_empty_conv)
  from a replace_city_names_ok[of w Map.empty
      "[Launch, Goto, WaitForSelector, Sleep, Scrape, Translate []]"]
  obtain b where "fst (replace_city_names w Map.empty
      [Launch, Goto, WaitForSelector, Sleep, Scrape, Translate []]) = Inr b" by blast
  then obtain ev' where rc: "replace_city_names w Map.empty
      [Launch, Goto, WaitForSelector, Sleep, Scrape, Translate []] = (Inr b, ev')"
    by (cases "replace_city_names w Map.empty
      [Launch, Goto, WaitForSelector, Sleep, Scrape, Translate []]") simp
  from a f rc show "fst (process w (\<lambda>ts. snd (translate chat loads cache ts 2))) = Inr ([], shot0)"
    by (simp add: process_def Let_def translate_no_terms weather_data_of_def)
qed

theorem records_have_names_witness:
  "fst (process (ex_page [ex_nameless_tile, ex_nameless_tile])
          (\<lambda>ts. snd (translate ex_chat_flaky ex_loads CITY_TRANSLATIONS ts 2))) = Inr ([], ex_png)
   \<and> fst (process (ex_page [ex_nameless_tile, ex_tokyo_tile])
          (\<lambda>ts. snd (translate ex_chat_flaky ex_loads CITY_TRANSLATIONS ts 2)))
       = Inr ([\<lparr>cw_jp = ex_tokyo, cw_ru = ex_tokio, cw_max_c = [], cw_alt = pat_hare\<rparr>], ex_png)
   \<and> cw_jp \<lparr>cw_jp = ex_tokyo, cw_ru = ex_tokio, cw_max_c = [], cw_alt = pat_hare\<rparr> \<noteq> []"
proof -
  let ?tf = "\<lambda>ts. snd (translate ex_chat_flaky ex_loads CITY_TRANSLATIONS ts 2)"
  let ?r = "\<lparr>cw_jp = ex_tokyo, cw_ru = ex_tokio, cw_max_c = [], cw_alt = pat_hare\<rparr>"
  have h: "pw_launch (ex_page [ex_nameless_tile, ex_nameless_tile]) = None \<and>
      pw_goto (ex_page [ex_nameless_tile, ex_nameless_tile]) = None \<and>
      pw_wait_for_selector (ex_page [ex_nameless_tile, ex_nameless_tile]) = None \<and>
      pw_scrape (ex_page [ex_nameless_tile, ex_nameless_tile])
        = Inr [ex_nameless_tile, ex_nameless_tile] \<and>
      [ex_nameless_tile, ex_nameless_tile] \<noteq> [] \<and>
      (\<forall>r\<in>set [ex_nameless_tile, ex_nameless_tile]. tile_name r = []) \<and>
      (\<forall>m. \<exists>ns. pw_replace (ex_page [ex_nameless_tile, ex_nameless_tile]) m = Inr ns) \<and>
      (\<forall>i. \<exists>ns. pw_read_names (ex_page [ex_nameless_tile, ex_nameless_tile]) i = Inr ns) \<and>
      pw_add_style_tag (ex_page [ex_nameless_tile, ex_nameless_tile]) = None \<and>
      pw_screenshot (ex_page [ex_nameless_tile, ex_nameless_tile]) = Inr ex_png \<and>
      pw_close (ex_page [ex_nameless_tile, ex_nameless_tile]) = None"
    by (simp add: ex_page_def ex_nameless_tile_def)
  from records_have_names[THEN conjunct2, rule_format, OF h]
  have a: "fst (process (ex_page [ex_nameless_tile, ex_nameless_tile]) ?tf) = Inr ([], ex_png)" .
  have t: "translate ex_chat_flaky ex_loads CITY_TRANSLATIONS [ex_tokyo] 2
      = (CITY_TRANSLATIONS, Inr (lookup_terms CITY_TRANSLATIONS [ex_tokyo]))"
    by (simp add: translate_def Let_def CITY_TRANSLATIONS_def CITY_TRANSLATIONS_seed_def
        ex_tokyo_def)
  have l: "lookup_terms CITY_TRANSLATIONS [ex_tokyo] ex_tokyo = Some ex_tokio"
    by (simp add: lookup_terms_def seed_tokyo)
  have ne: "ex_tokyo \<noteq> []" by (simp add: ex_tokyo_def)
  have b: "fst (process (ex_page [ex_nameless_tile, ex_tokyo_tile]) ?tf) = Inr ([?r], ex_png)"
    by (simp add: page_defs ex_nameless_tile_def ex_tokyo_tile_def t l ne)
  from records_have_names[THEN conjunct1, rule_format, OF b]
  have "\<forall>r\<in>set [?r]. cw_jp r \<noteq> []" by blast
  then have "cw_jp ?r \<noteq> []" by simp
  with a b show ?thesis by blast
qed

section \<open>Exceptions on the way from the chat call to the run\<close>










section \<open>C2: a generation error during a translation round\<close>




section \<open>A candidate that is not a string\<close>

text \<open>
  Another way for \<open>translate\<close> to raise: a response whose object holds a truthy value
  that is not a string, here \<open>{"<Kyoto>": 5}\<close>. \<open>re.search\<close> raises \<open>TypeError\<close>,
  which is not a \<open>json.JSONDecodeError\<close>, so it leaves \<open>translate\<close> and the cache is
  not updated.
\<close>

lemma number_candidate_raises:
  "translate (\<lambda>a ms. Inr ex_resp_number) ex_loads_number CITY_TRANSLATIONS [ex_kyoto] 2
   = (CITY_TRANSLATIONS, Inl (TypeError ''expected string or bytes-like object''))"
  apply (simp add: translate_def Let_def CITY_TRANSLATIONS_def CITY_TRANSLATIONS_seed_def
      ex_kyoto_def)
  apply (simp add: translate_loop.simps[of _ _ _ _ "x # xs" for x xs])
  apply (simp add: translate_round_def py_slice_def Let_def ex_resp_number_def
      ex_loads_number_def ex_kyoto_def)
  done

section \<open>A decoder exception that is not a decode error\<close>

text \<open>
  A third way for \<open>translate\<close> to raise: the decoder raises something other than
  \<open>json.JSONDecodeError\<close>. The handler does not match, the exception leaves
  \<open>translate\<close> and the cache is not updated.
\<close>

lemma decoder_value_error_raises:
  "translate ex_chat_kyoto ex_loads_digit_limit CITY_TRANSLATIONS [ex_kyoto] 2
   = (CITY_TRANSLATIONS,
      Inl (ValueError ''Exceeds the limit for integer string conversion''))"
  apply (simp add: translate_def Let_def CITY_TRANSLATIONS_def CITY_TRANSLATIONS_seed_def
      ex_kyoto_def)
  apply (simp add: translate_loop.simps[of _ _ _ _ "x # xs" for x xs] ex_chat_kyoto_def)
  apply (simp add: translate_round_def py_slice_def Let_def ex_resp_kyoto_def
      ex_loads_digit_limit_def)
  done

end
